theory Spec2Isabelle
  imports Complex_Main
begin

section \<open>Image search service: indexing job and query path of \<^verbatim>\<open>src/app.py\<close>\<close>

text \<open>
  The development embeds the request handlers and the background indexing job of
  \<^verbatim>\<open>src/app.py\<close>. Everything the Python code obtains from outside (the file system, the
  CLIP model, the wall clock, the Qdrant client) is an explicit argument, collected in
  the record \<open>env\<close>; the module-level dictionary \<^verbatim>\<open>indexing_status\<close> is a record that
  every operation takes and returns. Python exceptions are values of \<open>py_exception\<close>.
  A clock reading is kept as the real number it denotes; the float arithmetic on the
  readings is not fixed but passed as an argument (the record \<open>float_ops\<close>).
\<close>

subsection \<open>Exceptions and HTTP responses\<close>

datatype py_exception =
    FileNotFoundError
  | PermissionError
  | UnicodeDecodeError
  | ValueError
  | TypeError
  | ZeroDivisionError
  | OverflowError
  | KeyError string
  | StoreError
  | ModelError

subsection \<open>The process-wide job status\<close>

text \<open>
  \<^verbatim>\<open>indexing_status = {"is_indexing": False, "progress": 0, "total": 0, "message": "",
                      "start_time": None, "estimated_time": None}\<close>
\<close>

record indexing_status =
  is_indexing :: bool
  progress :: nat
  total :: nat
  message :: string
  start_time :: "real option"
  estimated_time :: "string option"

definition initial_status :: indexing_status where
  "initial_status =
     \<lparr>is_indexing = False, progress = 0, total = 0, message = [],
      start_time = None, estimated_time = None\<rparr>"

subsection \<open>The handler \<^verbatim>\<open>start_indexing\<close>\<close>

text \<open>
  The JSON body of the request is an object; only its key \<^verbatim>\<open>folder\<close> is read, with the
  default \<^verbatim>\<open>'./scraped_images'\<close> when the key is missing.
\<close>

record index_request =
  folder :: "string option"

datatype index_response =
    IndexRejected nat string
  | IndexStarted string indexing_status

text \<open>
  The result of the handler: the response, the new value of the global status, and the
  folder handed to the background thread when one is started. The body of the response
  to an accepted request is serialised from the global status after the thread has been
  started, so it may already show the first writes of the job; the response here carries
  the status as the handler left it.
\<close>

record start_result =
  response :: index_response
  new_status :: indexing_status
  launched :: "string option"

definition request_folder :: "index_request \<Rightarrow> string" where
  "request_folder req = (case folder req of None \<Rightarrow> ''./scraped_images'' | Some f \<Rightarrow> f)"

definition start_indexing ::
  "(string \<Rightarrow> bool) \<Rightarrow> indexing_status \<Rightarrow> index_request \<Rightarrow> start_result" where
  "start_indexing path_exists st req =
     (if is_indexing st then
        \<lparr>response = IndexRejected 400 ''Indexing already in progress'',
         new_status = st, launched = None\<rparr>
      else
        let image_folder = request_folder req in
        if \<not> path_exists image_folder then
          \<lparr>response = IndexRejected 404 (''Folder not found: '' @ image_folder),
           new_status = st, launched = None\<rparr>
        else
          let st' = \<lparr>is_indexing = True, progress = 0, total = 0,
                     message = ''Starting indexing...'',
                     start_time = None, estimated_time = None\<rparr>
          in \<lparr>response = IndexStarted ''Indexing started'' st',
              new_status = st', launched = Some image_folder\<rparr>)"

subsection \<open>Formatting numbers\<close>

text \<open>Python's \<^verbatim>\<open>str\<close> on integers, as used by the f-strings of the source.\<close>

fun str_nat :: "nat \<Rightarrow> string" where
  "str_nat n =
     (if n < 10 then [''0123456789'' ! n]
      else str_nat (n div 10) @ [''0123456789'' ! (n mod 10)])"

declare str_nat.simps [simp del]

definition str_int :: "int \<Rightarrow> string" where
  "str_int i = (if i < 0 then CHR ''-'' # str_nat (nat (- i)) else str_nat (nat i))"

text \<open>The truncation towards zero of \<^verbatim>\<open>int(x)\<close>, on the real numbers.\<close>

definition py_int :: "real \<Rightarrow> int" where
  "py_int x = (if 0 \<le> x then \<lfloor>x\<rfloor> else \<lceil>x\<rceil>)"

text \<open>
  The remainder of \<^verbatim>\<open>x % m\<close> for a non-zero divisor, on the real numbers: it takes the
  sign of the divisor.
\<close>

definition py_fmod :: "real \<Rightarrow> real \<Rightarrow> real" where
  "py_fmod x m = x - m * of_int \<lfloor>x / m\<rfloor>"

subsection \<open>Float arithmetic\<close>

text \<open>
  Python floats are IEEE doubles: their operations round, and may give an infinity or
  a NaN. The values are kept abstract (the type variable \<open>'f\<close>) and the operations the
  estimator uses are the fields of a record, so that nothing is assumed about them:
  \<^item> \<open>f_of_int\<close>: the conversion of the int operand of \<^verbatim>\<open>int / float\<close>, which raises
    \<^verbatim>\<open>OverflowError\<close> when the int is too large;
  \<^item> \<open>f_sub\<close>: \<^verbatim>\<open>float - float\<close>;
  \<^item> \<open>f_is_zero\<close>: \<^verbatim>\<open>x == 0.0\<close>, the test on the divisor that makes a division raise;
  \<^item> \<open>f_div\<close>: \<^verbatim>\<open>float / float\<close> for a divisor that is not zero;
  \<^item> \<open>f_less_int\<close>: \<^verbatim>\<open>float < k\<close> for an int literal \<open>k\<close>;
  \<^item> \<open>f_div_int\<close>, \<open>f_mod_int\<close>: \<^verbatim>\<open>float / k\<close> and \<^verbatim>\<open>float % k\<close> for a non-zero int literal;
  \<^item> \<open>f_int\<close>: \<^verbatim>\<open>int(x)\<close>, the truncation towards zero, which raises on an infinity or
    a NaN.
\<close>

record 'f float_ops =
  f_of_int :: "int \<Rightarrow> py_exception + 'f"
  f_sub :: "'f \<Rightarrow> 'f \<Rightarrow> 'f"
  f_is_zero :: "'f \<Rightarrow> bool"
  f_div :: "'f \<Rightarrow> 'f \<Rightarrow> 'f"
  f_less_int :: "'f \<Rightarrow> int \<Rightarrow> bool"
  f_div_int :: "'f \<Rightarrow> int \<Rightarrow> 'f"
  f_mod_int :: "'f \<Rightarrow> int \<Rightarrow> 'f"
  f_int :: "'f \<Rightarrow> py_exception + int"

text \<open>
  \<^verbatim>\<open>i / d\<close> for an int \<open>i\<close> and a float \<open>d\<close>: the int is converted first, then a zero
  divisor raises \<^verbatim>\<open>ZeroDivisionError\<close>.
\<close>

definition int_truediv :: "'f float_ops \<Rightarrow> int \<Rightarrow> 'f \<Rightarrow> py_exception + 'f" where
  "int_truediv ops i d =
     (case f_of_int ops i of
        Inl ex \<Rightarrow> Inl ex
      | Inr a \<Rightarrow> if f_is_zero ops d then Inl ZeroDivisionError else Inr (f_div ops a d))"

text \<open>
  Arithmetic without rounding on the reals, used for the concrete runs below: on their
  values (whole seconds, quotients that are exact) it computes what the rounded
  arithmetic computes.
\<close>

definition exact_arith :: "real float_ops" where
  "exact_arith =
     \<lparr>f_of_int = (\<lambda>i. Inr (of_int i)),
      f_sub = (\<lambda>a b. a - b),
      f_is_zero = (\<lambda>x. x = 0),
      f_div = (\<lambda>a b. a / b),
      f_less_int = (\<lambda>x k. x < of_int k),
      f_div_int = (\<lambda>x k. x / of_int k),
      f_mod_int = (\<lambda>x k. py_fmod x (of_int k)),
      f_int = (\<lambda>x. Inr (py_int x))\<rparr>"

subsection \<open>The estimator \<^verbatim>\<open>estimate_time_remaining\<close>\<close>

text \<open>
  The source reads the clock itself (\<^verbatim>\<open>time.time()\<close>); here the reading is the argument
  \<open>now\<close>. The start time comes from the status dictionary, where it may be \<^verbatim>\<open>None\<close>:
  subtracting \<^verbatim>\<open>None\<close> from a float raises \<^verbatim>\<open>TypeError\<close>. The three results are the
  f-strings of the source; a conversion \<^verbatim>\<open>int(...)\<close> that raises makes the call raise.
\<close>

definition fmt_seconds :: "'f float_ops \<Rightarrow> 'f \<Rightarrow> py_exception + string" where
  "fmt_seconds ops remaining =
     (case f_int ops remaining of
        Inl ex \<Rightarrow> Inl ex
      | Inr s \<Rightarrow> Inr (str_int s @ ''s remaining''))"

definition fmt_minutes :: "'f float_ops \<Rightarrow> 'f \<Rightarrow> py_exception + string" where
  "fmt_minutes ops remaining =
     (case f_int ops (f_div_int ops remaining 60) of
        Inl ex \<Rightarrow> Inl ex
      | Inr m \<Rightarrow> Inr (str_int m @ ''m remaining''))"

definition fmt_hours :: "'f float_ops \<Rightarrow> 'f \<Rightarrow> py_exception + string" where
  "fmt_hours ops remaining =
     (case f_int ops (f_div_int ops remaining 3600) of
        Inl ex \<Rightarrow> Inl ex
      | Inr h \<Rightarrow>
          (case f_int ops (f_div_int ops (f_mod_int ops remaining 3600) 60) of
             Inl ex \<Rightarrow> Inl ex
           | Inr m \<Rightarrow> Inr (str_int h @ ''h '' @ str_int m @ ''m remaining'')))"

definition estimate_time_remaining ::
  "'f float_ops \<Rightarrow> int \<Rightarrow> int \<Rightarrow> 'f option \<Rightarrow> 'f \<Rightarrow> py_exception + string" where
  "estimate_time_remaining ops progress' total' start_time' now =
     (if progress' = 0 then Inr ''Calculating...''
      else case start_time' of
        None \<Rightarrow> Inl TypeError
      | Some started \<Rightarrow>
          (let elapsed = f_sub ops now started in
           case int_truediv ops progress' elapsed of
             Inl ex \<Rightarrow> Inl ex
           | Inr rate \<Rightarrow>
               (case int_truediv ops (total' - progress') rate of
                  Inl ex \<Rightarrow> Inl ex
                | Inr remaining \<Rightarrow>
                    if f_less_int ops remaining 60 then fmt_seconds ops remaining
                    else if f_less_int ops remaining 3600 then fmt_minutes ops remaining
                    else fmt_hours ops remaining)))"

subsection \<open>Paths and the directory tree\<close>

text \<open>
  A \<^verbatim>\<open>pathlib.Path\<close> (POSIX flavour) is the list of its \<^verbatim>\<open>parts\<close>: for an absolute path
  the anchor \<^verbatim>\<open>/\<close> (or \<^verbatim>\<open>//\<close>) comes first, then the components. Two paths are equal (and
  hash alike) exactly when their parts are.
\<close>

type_synonym path = "string list"

definition is_anchor :: "string \<Rightarrow> bool" where
  "is_anchor c = (c = ''/'' \<or> c = ''//'')"

text \<open>The pieces of a string between its slashes.\<close>

fun split_slash :: "string \<Rightarrow> string \<Rightarrow> string list" where
  "split_slash piece [] = [piece]"
| "split_slash piece (c # cs) =
     (if c = CHR ''/'' then piece # split_slash [] cs else split_slash (piece @ [c]) cs)"

text \<open>
  \<^verbatim>\<open>Path(s)\<close>: exactly two leading slashes give the anchor \<^verbatim>\<open>//\<close>, any other number of
  them the anchor \<^verbatim>\<open>/\<close>; empty pieces and the piece \<^verbatim>\<open>.\<close> are dropped, so that
  \<^verbatim>\<open>./scraped_images\<close> is the one component \<^verbatim>\<open>scraped_images\<close>.
\<close>

definition Path :: "string \<Rightarrow> path" where
  "Path s =
     (let slashes = length (takeWhile (\<lambda>c. c = CHR ''/'') s);
          anchor = (if slashes = 0 then [] else if slashes = 2 then [''//''] else [''/''])
      in anchor @ filter (\<lambda>c. c \<noteq> [] \<and> c \<noteq> ''.'') (split_slash [] s))"

text \<open>\<^verbatim>\<open>PurePath.name\<close> and \<^verbatim>\<open>PurePath.parent\<close>; a bare anchor has no name and is its own parent.\<close>

definition path_name :: "path \<Rightarrow> string" where
  "path_name p = (if p = [] \<or> (length p = 1 \<and> is_anchor (hd p)) then [] else last p)"

definition path_parent :: "path \<Rightarrow> path" where
  "path_parent p = (if length p = 1 \<and> is_anchor (hd p) then p else butlast p)"

text \<open>\<^verbatim>\<open>str(path)\<close>: the anchor, then the components joined by slashes; \<^verbatim>\<open>.\<close> for no part.\<close>

fun join_slash :: "string list \<Rightarrow> string" where
  "join_slash [] = []"
| "join_slash [c] = c"
| "join_slash (c # cs) = c @ ''/'' @ join_slash cs"

definition str_path :: "path \<Rightarrow> string" where
  "str_path p =
     (case p of
        [] \<Rightarrow> ''.''
      | c # cs \<Rightarrow> if is_anchor c then c @ join_slash cs else join_slash (c # cs))"

text \<open>
  \<^verbatim>\<open>PurePath.suffix\<close>: the part of the name from its last dot, unless that dot is the
  first or the last character of the name.
\<close>

definition path_suffix :: "string \<Rightarrow> string" where
  "path_suffix name =
     (let after = length (takeWhile (\<lambda>c. c \<noteq> CHR ''.'') (rev name)) in
      if after = length name then []
      else let i = length name - after - 1 in
           if 0 < i \<and> i < length name - 1 then drop i name else [])"

definition path_stem :: "string \<Rightarrow> string" where
  "path_stem name = take (length name - length (path_suffix name)) name"

text \<open>
  \<^verbatim>\<open>PurePath.with_suffix\<close>: raises \<^verbatim>\<open>ValueError\<close> on an invalid suffix or an empty name.
\<close>

definition with_suffix :: "path \<Rightarrow> string \<Rightarrow> py_exception + path" where
  "with_suffix p new_suffix =
     (if CHR ''/'' \<in> set new_suffix then Inl ValueError
      else if (new_suffix \<noteq> [] \<and> hd new_suffix \<noteq> CHR ''.'') \<or> new_suffix = ''.''
           then Inl ValueError
      else if path_name p = [] then Inl ValueError
      else Inr (butlast p @ [path_stem (path_name p) @ new_suffix]))"

text \<open>
  The entries below a folder, as the globbing of the source sees them: files, folders
  with their entries, and symbolic links. \<open>Link n target\<close> is a link named \<open>n\<close>;
  \<open>target\<close> is the resolved absolute path of what it points to.
\<close>

datatype node = File string | Dir string "node list" | Link string path

fun node_name :: "node \<Rightarrow> string" where
  "node_name (File n) = n"
| "node_name (Dir n cs) = n"
| "node_name (Link n target) = n"

definition endswith :: "string \<Rightarrow> string \<Rightarrow> bool" where
  "endswith s ext = (length ext \<le> length s \<and> drop (length s - length ext) s = ext)"

text \<open>
  \<^verbatim>\<open>folder.glob("*" + ext)\<close>: the entries directly in the folder whose name ends with
  the extension (the match is on the name; the star also matches the empty string).
\<close>

definition glob :: "path \<Rightarrow> node list \<Rightarrow> string \<Rightarrow> path list" where
  "glob dir entries ext = [dir @ [node_name e]. e \<leftarrow> entries, endswith (node_name e) ext]"

text \<open>
  \<^verbatim>\<open>folder.rglob("*" + ext)\<close>: the same match in the folder and in every subfolder. The
  recursive search lists a symbolic link but does not descend into it.
\<close>

fun rglob :: "path \<Rightarrow> node list \<Rightarrow> string \<Rightarrow> path list" where
  "rglob dir [] ext = []"
| "rglob dir (File n # es) ext =
     (if endswith n ext then [dir @ [n]] else []) @ rglob dir es ext"
| "rglob dir (Dir n cs # es) ext =
     (if endswith n ext then [dir @ [n]] else []) @ rglob (dir @ [n]) cs ext @ rglob dir es ext"
| "rglob dir (Link n target # es) ext =
     (if endswith n ext then [dir @ [n]] else []) @ rglob dir es ext"

text \<open>
  \<^verbatim>\<open>list(set(xs))\<close>: the distinct elements of \<open>xs\<close>, in the iteration order of the set,
  which Python leaves unspecified. The order is the parameter \<open>rank\<close>: the elements come
  out by increasing rank, and every order of the distinct elements is obtained from
  some rank.
\<close>

definition py_list_of_set :: "('a \<Rightarrow> nat) \<Rightarrow> 'a list \<Rightarrow> 'a list" where
  "py_list_of_set rank xs = sort_key rank (remdups xs)"

definition found_files :: "path \<Rightarrow> node list \<Rightarrow> path list" where
  "found_files dir entries =
     glob dir entries ''.jpg'' @ glob dir entries ''.jpeg'' @ glob dir entries ''.png'' @
     rglob dir entries ''.jpg'' @ rglob dir entries ''.jpeg'' @ rglob dir entries ''.png''"

definition image_files :: "(path \<Rightarrow> nat) \<Rightarrow> path \<Rightarrow> node list \<Rightarrow> path list" where
  "image_files rank dir entries = py_list_of_set rank (found_files dir entries)"

subsection \<open>Reading a description: \<^verbatim>\<open>read_description\<close>\<close>

text \<open>
  \<^verbatim>\<open>str.isspace\<close> on the code points below 256, and \<^verbatim>\<open>str.strip()\<close>.
\<close>

definition py_isspace :: "char \<Rightarrow> bool" where
  "py_isspace c = ((of_char c :: nat) \<in> set [9, 10, 11, 12, 13, 28, 29, 30, 31, 32, 133, 160])"

definition strip :: "string \<Rightarrow> string" where
  "strip s = rev (dropWhile py_isspace (rev (dropWhile py_isspace s)))"

text \<open>
  \<open>read_text p\<close> stands for \<^verbatim>\<open>open(p, 'r', encoding='utf-8')\<close> followed by \<^verbatim>\<open>f.read()\<close>:
  the decoded content, or the exception raised by either call. The bare \<^verbatim>\<open>except:\<close> of
  the source catches every exception.
\<close>

definition read_description :: "(path \<Rightarrow> py_exception + string) \<Rightarrow> path \<Rightarrow> string" where
  "read_description read_text txt_path =
     (case read_text txt_path of
        Inl e \<Rightarrow> ''No description''
      | Inr text \<Rightarrow>
          (let content = strip text in
           if content \<noteq> [] then content else ''No description''))"

subsection \<open>Embedding records and the vector store\<close>

text \<open>
  A \<^verbatim>\<open>PointStruct\<close>: identifier, vector and payload. The payload is a Python dictionary
  with string keys and values, kept as an association list in insertion order.
\<close>

record point =
  point_id :: nat
  vector :: "real list"
  payload :: "(string \<times> string) list"

text \<open>
  The state of the collection \<^verbatim>\<open>image_search\<close> is the history of the batches that were
  upserted. A lookup by identifier finds the record written last, since an upsert
  overwrites a record with the same identifier.
\<close>

type_synonym qdrant = "point list list"

definition stored :: "qdrant \<Rightarrow> nat \<Rightarrow> point option" where
  "stored q = map_of (rev (map (\<lambda>pt. (point_id pt, pt)) (concat q)))"

subsection \<open>The environment of the indexing job\<close>

text \<open>
  \<^item> \<open>listing\<close>: the entries below a folder;
  \<^item> \<open>set_rank\<close>: the iteration order of the set of found paths;
  \<^item> \<open>read_text\<close>: opening and reading a text file;
  \<^item> \<open>clip_image\<close>: opening, preprocessing and encoding an image (the body of the
    \<^verbatim>\<open>try\<close> in \<^verbatim>\<open>embed_image\<close>), which may raise;
  \<^item> \<open>absolute\<close>: \<^verbatim>\<open>Path.absolute()\<close>, which depends on the working directory;
  \<^item> \<open>arith\<close>: the float arithmetic on the clock readings;
  \<^item> \<open>clock_start\<close>: the reading of \<^verbatim>\<open>time.time()\<close> when the job records its start;
  \<^item> \<open>clock_item i\<close>: the reading when the estimate for the item at position \<open>i\<close> is made;
  \<^item> \<open>upsert_raises\<close>: whether \<^verbatim>\<open>client.upsert\<close> raises on a batch.
\<close>

record env =
  listing :: "string \<Rightarrow> node list"
  set_rank :: "path \<Rightarrow> nat"
  read_text :: "path \<Rightarrow> py_exception + string"
  clip_image :: "string \<Rightarrow> py_exception + real list"
  absolute :: "path \<Rightarrow> path"
  arith :: "real float_ops"
  clock_start :: real
  clock_item :: "nat \<Rightarrow> real"
  upsert_raises :: "point list \<Rightarrow> bool"

definition embed_image :: "env \<Rightarrow> string \<Rightarrow> real list option" where
  "embed_image e image_path =
     (case clip_image e image_path of Inl ex \<Rightarrow> None | Inr v \<Rightarrow> Some v)"

definition upsert :: "env \<Rightarrow> qdrant \<Rightarrow> point list \<Rightarrow> py_exception + qdrant" where
  "upsert e q batch = (if upsert_raises e batch then Inl StoreError else Inr (q @ [batch]))"

subsection \<open>The job \<^verbatim>\<open>index_images_background\<close>\<close>

text \<open>
  The variables of the job: the global status, the local batch \<^verbatim>\<open>points\<close>, the local
  counter \<^verbatim>\<open>errors\<close>, and the collection behind \<^verbatim>\<open>client\<close>.
\<close>

record job =
  status :: indexing_status
  points :: "point list"
  errors :: nat
  client :: qdrant

definition batch_size :: nat where
  "batch_size = 100"

definition PointStruct :: "env \<Rightarrow> nat \<Rightarrow> path \<Rightarrow> real list \<Rightarrow> string \<Rightarrow> point" where
  "PointStruct e idx image_file embedding description =
     \<lparr>point_id = idx, vector = embedding,
      payload = [(''filename'', path_name image_file),
                 (''path'', str_path (absolute e image_file)),
                 (''description'', description),
                 (''folder'', str_path (path_parent image_file))]\<rparr>"

definition processed_message :: "nat \<Rightarrow> nat \<Rightarrow> string" where
  "processed_message k n = ''Processed '' @ str_nat k @ ''/'' @ str_nat n @ '' images''"

text \<open>
  The statements of the \<^verbatim>\<open>try\<close> block after the batch has grown: the batch upload, then
  the progress update. An exception leaves the assignments made before it in place.
\<close>

definition batch_upload :: "env \<Rightarrow> job \<Rightarrow> py_exception \<times> job + job" where
  "batch_upload e j =
     (if length (points j) \<ge> batch_size then
        (case upsert e (client j) (points j) of
           Inl ex \<Rightarrow> Inl (ex, j)
         | Inr q \<Rightarrow> Inr (j\<lparr>client := q, points := []\<rparr>))
      else Inr j)"

definition update_progress :: "env \<Rightarrow> nat \<Rightarrow> nat \<Rightarrow> job \<Rightarrow> py_exception \<times> job + job" where
  "update_progress e n idx j =
     (let j1 = j\<lparr>status := (status j)\<lparr>progress := idx + 1\<rparr>\<rparr> in
      case estimate_time_remaining (arith e) (int (idx + 1)) (int n) (start_time (status j1))
             (clock_item e idx) of
        Inl ex \<Rightarrow> Inl (ex, j1)
      | Inr eta \<Rightarrow>
          Inr (j1\<lparr>status := (status j1)\<lparr>estimated_time := Some eta,
                                        message := processed_message (idx + 1) n\<rparr>\<rparr>))"

text \<open>
  The first statements of the \<^verbatim>\<open>try\<close> block, up to the construction of the point:
  \<open>Inl ex\<close> is an exception, \<open>Inr None\<close> a failed embedding, \<open>Inr (Some pt)\<close> the point
  that is appended to the batch.
\<close>

definition item_point :: "env \<Rightarrow> nat \<times> path \<Rightarrow> py_exception + point option" where
  "item_point e item =
     (let idx = fst item; image_file = snd item in
      case with_suffix image_file ''.txt'' of
        Inl ex \<Rightarrow> Inl ex
      | Inr txt_file \<Rightarrow>
          (let description = read_description (read_text e) txt_file in
           case embed_image e (str_path image_file) of
             None \<Rightarrow> Inr None
           | Some embedding \<Rightarrow>
               Inr (Some (PointStruct e idx image_file embedding description))))"

text \<open>
  The \<^verbatim>\<open>try\<close> block of one iteration. \<open>Inl (ex, j)\<close> is an exception raised in state \<open>j\<close>;
  \<open>Inr (True, j)\<close> is the \<^verbatim>\<open>continue\<close> after a failed embedding, which has already
  counted the error; \<open>Inr (False, j)\<close> is the end of the block.
\<close>

definition try_item :: "env \<Rightarrow> nat \<Rightarrow> nat \<times> path \<Rightarrow> job \<Rightarrow> py_exception \<times> job + bool \<times> job" where
  "try_item e n item j =
     (case item_point e item of
        Inl ex \<Rightarrow> Inl (ex, j)
      | Inr None \<Rightarrow> Inr (True, j\<lparr>errors := errors j + 1\<rparr>)
      | Inr (Some pt) \<Rightarrow>
          (let j1 = j\<lparr>points := points j @ [pt]\<rparr> in
           case batch_upload e j1 of
             Inl x \<Rightarrow> Inl x
           | Inr j2 \<Rightarrow>
               (case update_progress e n (fst item) j2 of
                  Inl x \<Rightarrow> Inl x
                | Inr j3 \<Rightarrow> Inr (False, j3))))"

text \<open>One iteration: the \<^verbatim>\<open>try\<close> block and its handler \<^verbatim>\<open>except Exception\<close>.\<close>

definition loop_body :: "env \<Rightarrow> nat \<Rightarrow> nat \<times> path \<Rightarrow> job \<Rightarrow> job" where
  "loop_body e n item j =
     (case try_item e n item j of
        Inl (ex, j') \<Rightarrow> j'\<lparr>errors := errors j' + 1\<rparr>
      | Inr (skipped, j') \<Rightarrow> j')"

definition index_loop :: "env \<Rightarrow> path list \<Rightarrow> job \<Rightarrow> job" where
  "index_loop e files j = fold (loop_body e (length files)) (enumerate 0 files) j"

definition completed_message :: "int \<Rightarrow> nat \<Rightarrow> string" where
  "completed_message success_count errs =
     [CHR 0xE2, CHR 0x9C, CHR 0x85] @ '' Completed! Indexed '' @ str_int success_count @
     '' images ('' @ str_nat errs @ '' errors)''"

definition scan :: "env \<Rightarrow> string \<Rightarrow> path list" where
  "scan e image_folder = image_files (set_rank e) (Path image_folder) (listing e image_folder)"

text \<open>
  The state in which the loop starts: the status after lines 118 to 121, an empty
  batch and no errors.
\<close>

definition job_start :: "env \<Rightarrow> indexing_status \<Rightarrow> qdrant \<Rightarrow> nat \<Rightarrow> job" where
  "job_start e st q n =
     \<lparr>status = st\<lparr>total := n, progress := 0, start_time := Some (clock_start e),
                  message := ''Found '' @ str_nat n @ '' images''\<rparr>,
      points = [], errors = 0, client = q\<rparr>"

text \<open>
  The whole job. \<open>Inr j\<close> is a run that completes, with the variables at its end;
  \<open>Inl (ex, j)\<close> is a run whose last upload raises, which ends the thread in state \<open>j\<close>.
\<close>

definition index_images_background ::
  "env \<Rightarrow> indexing_status \<Rightarrow> qdrant \<Rightarrow> string \<Rightarrow> py_exception \<times> job + job" where
  "index_images_background e st q image_folder =
     (let files = scan e image_folder;
          j = index_loop e files (job_start e st q (length files))
      in case (if points j \<noteq> [] then upsert e (client j) (points j) else Inr (client j)) of
           Inl ex \<Rightarrow> Inl (ex, j)
         | Inr q' \<Rightarrow>
             (let success_count = int (length files) - int (errors j) in
              Inr (j\<lparr>client := q',
                     status := (status j)\<lparr>is_indexing := False,
                                 message := completed_message success_count (errors j)\<rparr>\<rparr>)))"

subsection \<open>The handler \<^verbatim>\<open>search\<close>\<close>

text \<open>
  The JSON body supplies \<^verbatim>\<open>query\<close> (default the empty string) and \<^verbatim>\<open>top_k\<close> (default
  12). The calls the handler makes to the model and to the store are recorded in the
  order it makes them: \<open>EncodeText\<close> stands for tokenizing and encoding the query,
  \<open>ClientSearch\<close> for \<^verbatim>\<open>client.search\<close>.
\<close>

record search_request =
  query :: "string option"
  top_k :: "int option"

record hit =
  score :: real
  hit_payload :: "(string \<times> string) list"

record search_env =
  encode_text :: "string \<Rightarrow> py_exception + real list"
  client_search :: "real list \<Rightarrow> int \<Rightarrow> py_exception + hit list"

datatype external_call = EncodeText string | ClientSearch "real list" int

record formatted_result =
  r_score :: real
  r_filename :: string
  r_path :: string
  r_description :: string
  r_folder :: string

datatype search_response =
    SearchRejected nat string
  | SearchFailed nat py_exception
  | SearchResults string "formatted_result list" nat

definition payload_get :: "(string \<times> string) list \<Rightarrow> string \<Rightarrow> string \<Rightarrow> string" where
  "payload_get pl key dflt = (case map_of pl key of None \<Rightarrow> dflt | Some v \<Rightarrow> v)"

definition payload_item :: "(string \<times> string) list \<Rightarrow> string \<Rightarrow> py_exception + string" where
  "payload_item pl key = (case map_of pl key of None \<Rightarrow> Inl (KeyError key) | Some v \<Rightarrow> Inr v)"

definition format_result :: "hit \<Rightarrow> py_exception + formatted_result" where
  "format_result h =
     (case payload_item (hit_payload h) ''filename'' of
        Inl ex \<Rightarrow> Inl ex
      | Inr fname \<Rightarrow>
          (case payload_item (hit_payload h) ''path'' of
             Inl ex \<Rightarrow> Inl ex
           | Inr pth \<Rightarrow>
               Inr \<lparr>r_score = score h, r_filename = fname, r_path = pth,
                    r_description = payload_get (hit_payload h) ''description'' ''No description'',
                    r_folder = payload_get (hit_payload h) ''folder'' []\<rparr>))"

fun format_results :: "hit list \<Rightarrow> py_exception + formatted_result list" where
  "format_results [] = Inr []"
| "format_results (h # hs) =
     (case format_result h of
        Inl ex \<Rightarrow> Inl ex
      | Inr r \<Rightarrow> (case format_results hs of Inl ex \<Rightarrow> Inl ex | Inr rs \<Rightarrow> Inr (r # rs)))"

definition search :: "search_env \<Rightarrow> search_request \<Rightarrow> search_response \<times> external_call list" where
  "search se req =
     (let q = (case query req of None \<Rightarrow> [] | Some s \<Rightarrow> s);
          k = (case top_k req of None \<Rightarrow> 12 | Some n \<Rightarrow> n)
      in if q = [] then (SearchRejected 400 ''Query is required'', [])
         else case encode_text se q of
           Inl ex \<Rightarrow> (SearchFailed 500 ex, [EncodeText q])
         | Inr text_features \<Rightarrow>
             (case client_search se text_features k of
                Inl ex \<Rightarrow> (SearchFailed 500 ex, [EncodeText q, ClientSearch text_features k])
              | Inr results \<Rightarrow>
                  (case format_results results of
                     Inl ex \<Rightarrow>
                       (SearchFailed 500 ex, [EncodeText q, ClientSearch text_features k])
                   | Inr formatted \<Rightarrow>
                       (SearchResults q formatted (length formatted),
                        [EncodeText q, ClientSearch text_features k]))))"

subsection \<open>Notions used to state the properties\<close>

text \<open>
  The records a run appends, in scan order: the points of the items whose \<^verbatim>\<open>try\<close> block
  reaches \<^verbatim>\<open>points.append\<close>.
\<close>

definition appended :: "env \<Rightarrow> nat \<times> path \<Rightarrow> point list" where
  "appended e item = (case item_point e item of Inr (Some pt) \<Rightarrow> [pt] | _ \<Rightarrow> [])"

definition records :: "env \<Rightarrow> path list \<Rightarrow> point list" where
  "records e files = concat (map (appended e) (enumerate 0 files))"

text \<open>
  The resolved path of a path below a folder (\<^verbatim>\<open>Path.resolve()\<close>, which the source never
  calls): \<open>dir\<close> is the resolved path of the folder, \<open>es\<close> are its entries, and the
  components are followed through the tree; a link is replaced by its target.
\<close>

fun resolve_below :: "path \<Rightarrow> node list \<Rightarrow> string list \<Rightarrow> path" where
  "resolve_below dir es [] = dir"
| "resolve_below dir es (c # cs) =
     (case find (\<lambda>e. node_name e = c) es of
        Some (Dir n children) \<Rightarrow> resolve_below (dir @ [c]) children cs
      | Some (Link n target) \<Rightarrow> target @ cs
      | _ \<Rightarrow> dir @ c # cs)"

definition resolved :: "path \<Rightarrow> node list \<Rightarrow> path \<Rightarrow> path" where
  "resolved dir es p = resolve_below dir es (drop (length dir) p)"

text \<open>The resolved paths of the image files of a scan, in scan order.\<close>

definition resolved_files :: "(path \<Rightarrow> nat) \<Rightarrow> path \<Rightarrow> node list \<Rightarrow> path list" where
  "resolved_files rank dir es = map (resolved dir es) (image_files rank dir es)"

text \<open>The sidecar of an image: same folder, same stem, extension \<^verbatim>\<open>.txt\<close>.\<close>

definition sidecar :: "path \<Rightarrow> path" where
  "sidecar image_file = path_parent image_file @ [path_stem (path_name image_file) @ ''.txt'']"

subsection \<open>A concrete folder\<close>

text \<open>
  The folder \<^verbatim>\<open>imgs\<close> holds \<^verbatim>\<open>a.jpg\<close> with its sidecar \<^verbatim>\<open>a.txt\<close>, and nested folders with
  \<^verbatim>\<open>b.png\<close>, \<^verbatim>\<open>c.jpeg\<close>, \<^verbatim>\<open>d.png\<close> and a file \<^verbatim>\<open>e.JPG\<close> that no pattern matches.
  The images \<^verbatim>\<open>b.png\<close> and \<^verbatim>\<open>d.png\<close> cannot be embedded. The set of paths is
  iterated by increasing depth. The store never raises.
\<close>

definition ex_tree :: "node list" where
  "ex_tree =
     [File ''a.jpg'', File ''a.txt'',
      Dir ''sub'' [File ''b.png'', File ''e.JPG'',
        Dir ''deep'' [File ''c.jpeg'', Dir ''er'' [File ''d.png'']]]]"

definition ex_env :: env where
  "ex_env =
     \<lparr>listing = (\<lambda>f. if f = ''imgs'' then ex_tree else []),
      set_rank = length,
      read_text = (\<lambda>p. if p = [''imgs'', ''a.txt''] then Inr '' old harbour '' else Inl FileNotFoundError),
      clip_image = (\<lambda>s. if s = ''imgs/a.jpg'' then Inr [1, 0]
                         else if s = ''imgs/sub/deep/c.jpeg'' then Inr [0, 1]
                         else Inl ModelError),
      absolute = (\<lambda>p. [''/'', ''srv''] @ p),
      arith = exact_arith,
      clock_start = 10,
      clock_item = (\<lambda>i. 11 + real i),
      upsert_raises = (\<lambda>b. False)\<rparr>"

text \<open>
  The folder \<^verbatim>\<open>/srv/imgs\<close> with the file \<^verbatim>\<open>a.jpg\<close> and a symbolic link \<^verbatim>\<open>copy.jpg\<close> to it.
\<close>

definition ex_linked :: "node list" where
  "ex_linked = [File ''a.jpg'', Link ''copy.jpg'' [''/'', ''srv'', ''imgs'', ''a.jpg'']]"

definition ex_running :: indexing_status where
  "ex_running =
     \<lparr>is_indexing = True, progress = 5, total = 10, message = ''Processed 5/10 images'',
      start_time = Some 10, estimated_time = Some ''5s remaining''\<rparr>"

definition ex_exists :: "string \<Rightarrow> bool" where
  "ex_exists p = (p = ''imgs'')"

text \<open>The status after an accepted start request, and the two points of the folder.\<close>

definition ex_started :: indexing_status where
  "ex_started =
     \<lparr>is_indexing = True, progress = 0, total = 0, message = ''Starting indexing...'',
      start_time = None, estimated_time = None\<rparr>"

definition ex_point_a :: point where
  "ex_point_a =
     \<lparr>point_id = 0, vector = [1, 0],
      payload = [(''filename'', ''a.jpg''), (''path'', ''/srv/imgs/a.jpg''),
                 (''description'', ''old harbour''), (''folder'', ''imgs'')]\<rparr>"

definition ex_point_c :: point where
  "ex_point_c =
     \<lparr>point_id = 2, vector = [0, 1],
      payload = [(''filename'', ''c.jpeg''), (''path'', ''/srv/imgs/sub/deep/c.jpeg''),
                 (''description'', ''No description''), (''folder'', ''imgs/sub/deep'')]\<rparr>"

text \<open>A record left in the collection by an earlier run, under the identifier 0.\<close>

definition ex_old_point :: point where
  "ex_old_point =
     \<lparr>point_id = 0, vector = [0, 0],
      payload = [(''filename'', ''z.png''), (''path'', ''/srv/other/z.png''),
                 (''description'', ''No description''), (''folder'', ''other'')]\<rparr>"

section \<open>Properties\<close>

subsection \<open>The request handlers\<close>

text \<open>
  Claim C2. When a job is already running (\<open>is_indexing\<close> holds), a start request is
  answered with the error ``Indexing already in progress'' (status code 400), the status
  is returned as it was, with its counters \<open>progress\<close> and \<open>total\<close> and every other
  field, and no thread is launched.
\<close>

theorem start_indexing_rejected_while_running:
  "is_indexing st \<Longrightarrow>
     start_indexing path_exists st req =
       \<lparr>response = IndexRejected 400 ''Indexing already in progress'',
        new_status = st, launched = None\<rparr>"
  by (simp add: start_indexing_def)

text \<open>The running status with 5 of 10 items processed keeps its counters.\<close>

theorem start_indexing_rejected_while_running_witness:
  "is_indexing ex_running \<and>
   start_indexing ex_exists ex_running \<lparr>folder = Some ''imgs''\<rparr> =
     \<lparr>response = IndexRejected 400 ''Indexing already in progress'',
      new_status = ex_running, launched = None\<rparr> \<and>
   progress (new_status (start_indexing ex_exists ex_running \<lparr>folder = Some ''imgs''\<rparr>)) = 5 \<and>
   total (new_status (start_indexing ex_exists ex_running \<lparr>folder = Some ''imgs''\<rparr>)) = 10"
proof -
  have r: "is_indexing ex_running" by (simp add: ex_running_def)
  have "start_indexing ex_exists ex_running \<lparr>folder = Some ''imgs''\<rparr> =
     \<lparr>response = IndexRejected 400 ''Indexing already in progress'',
      new_status = ex_running, launched = None\<rparr>"
    by (rule start_indexing_rejected_while_running [OF r])
  then show ?thesis
    using r by (simp add: ex_running_def)
qed

text \<open>
  Claim C3 as stated fails while a job is running: the check of \<open>is_indexing\<close> comes
  first, so a request for a folder that does not exist is answered with the error
  ``Indexing already in progress'' (400) and not with the not-found error.
\<close>

theorem missing_folder_while_running_counterexample:
  "\<not> ex_exists (request_folder \<lparr>folder = Some ''nowhere''\<rparr>) \<and>
   response (start_indexing ex_exists ex_running \<lparr>folder = Some ''nowhere''\<rparr>) =
     IndexRejected 400 ''Indexing already in progress''"
  by (simp add: start_indexing_def ex_running_def ex_exists_def request_folder_def)

text \<open>
  Claim C3, amended. A start request whose folder does not exist changes no field of
  the status and launches no thread; it is answered with the not-found error (404,
  ``Folder not found: ...'') when no job is running, and with the error ``Indexing
  already in progress'' (400) when one is.
\<close>

theorem start_indexing_missing_folder:
  "\<not> path_exists (request_folder req) \<Longrightarrow>
     new_status (start_indexing path_exists st req) = st \<and>
     launched (start_indexing path_exists st req) = None \<and>
     response (start_indexing path_exists st req) =
       (if is_indexing st then IndexRejected 400 ''Indexing already in progress''
        else IndexRejected 404 (''Folder not found: '' @ request_folder req))"
  by (simp add: start_indexing_def Let_def)

text \<open>A request without a folder asks for the default folder, which is missing here.\<close>

theorem start_indexing_missing_folder_witness:
  "\<not> ex_exists (request_folder \<lparr>folder = None\<rparr>) \<and>
   new_status (start_indexing ex_exists initial_status \<lparr>folder = None\<rparr>) = initial_status \<and>
   launched (start_indexing ex_exists initial_status \<lparr>folder = None\<rparr>) = None \<and>
   response (start_indexing ex_exists initial_status \<lparr>folder = None\<rparr>) =
     IndexRejected 404 ''Folder not found: ./scraped_images''"
proof -
  have h: "\<not> ex_exists (request_folder \<lparr>folder = None\<rparr>)"
    by (simp add: request_folder_def ex_exists_def)
  from start_indexing_missing_folder
         [where path_exists = ex_exists and req = "\<lparr>folder = None\<rparr>" and st = initial_status, OF h]
  show ?thesis
    using h by (simp add: request_folder_def initial_status_def)
qed

text \<open>
  Claim C4 as stated fails: an accepted request resets \<open>start_time\<close> to \<^verbatim>\<open>None\<close>, not to
  the current time.
\<close>

theorem accepted_start_time_counterexample:
  "\<not> is_indexing initial_status \<and>
   ex_exists (request_folder \<lparr>folder = Some ''imgs''\<rparr>) \<and>
   launched (start_indexing ex_exists initial_status \<lparr>folder = Some ''imgs''\<rparr>) = Some ''imgs'' \<and>
   start_time (new_status (start_indexing ex_exists initial_status \<lparr>folder = Some ''imgs''\<rparr>)) = None"
  by (simp add: start_indexing_def initial_status_def request_folder_def ex_exists_def Let_def)

text \<open>
  Claim C4, amended. An accepted start request (no job running, folder present) resets
  the status before the handler returns to: \<open>is_indexing\<close> true, \<open>progress\<close> 0, \<open>total\<close>
  0, message ``Starting indexing...'', and \<open>start_time\<close> and \<open>estimated_time\<close> absent.
  The start time is set by the background job, after it has scanned the folder: it
  then stores the clock reading, the number of files found and the message
  ``Found n images''.
\<close>

theorem start_indexing_accepted_reset:
  assumes "\<not> is_indexing st" and "path_exists (request_folder req)"
  shows "new_status (start_indexing path_exists st req) =
           \<lparr>is_indexing = True, progress = 0, total = 0, message = ''Starting indexing...'',
            start_time = None, estimated_time = None\<rparr> \<and>
         response (start_indexing path_exists st req) =
           IndexStarted ''Indexing started'' (new_status (start_indexing path_exists st req)) \<and>
         launched (start_indexing path_exists st req) = Some (request_folder req) \<and>
         status (job_start e \<lparr>is_indexing = True, progress = 0, total = 0,
                               message = ''Starting indexing...'',
                               start_time = None, estimated_time = None\<rparr> q n) =
           \<lparr>is_indexing = True, progress = 0, total = n,
            message = ''Found '' @ str_nat n @ '' images'',
            start_time = Some (clock_start e), estimated_time = None\<rparr>"
  using assms by (simp add: start_indexing_def Let_def job_start_def)

text \<open>The idle status and the folder \<^verbatim>\<open>imgs\<close>, which exists.\<close>

theorem start_indexing_accepted_reset_witness:
  "\<not> is_indexing initial_status \<and>
   ex_exists (request_folder \<lparr>folder = Some ''imgs''\<rparr>) \<and>
   new_status (start_indexing ex_exists initial_status \<lparr>folder = Some ''imgs''\<rparr>) =
     \<lparr>is_indexing = True, progress = 0, total = 0, message = ''Starting indexing...'',
      start_time = None, estimated_time = None\<rparr> \<and>
   start_time (status (job_start ex_env
      (new_status (start_indexing ex_exists initial_status \<lparr>folder = Some ''imgs''\<rparr>)) [] 4))
     = Some (clock_start ex_env) \<and>
   clock_start ex_env = 10"
proof -
  have a: "\<not> is_indexing initial_status" by (simp add: initial_status_def)
  have b: "ex_exists (request_folder \<lparr>folder = Some ''imgs''\<rparr>)"
    by (simp add: request_folder_def ex_exists_def)
  from start_indexing_accepted_reset
         [where path_exists = ex_exists and req = "\<lparr>folder = Some ''imgs''\<rparr>"
            and st = initial_status and e = ex_env and q = "[]" and n = 4, OF a b]
  show ?thesis
    using a b by (simp add: ex_env_def)
qed

text \<open>
  Claim C9. A search request whose query is empty (or missing, which defaults to the
  empty string) is answered with the error ``Query is required'' (400), and the handler
  calls neither the text encoder nor the store.
\<close>

theorem search_empty_query_rejected:
  "query req = None \<or> query req = Some [] \<Longrightarrow>
     search se req = (SearchRejected 400 ''Query is required'', [])"
  by (auto simp: search_def)

text \<open>An empty query with \<^verbatim>\<open>top_k\<close> 5.\<close>

theorem search_empty_query_rejected_witness:
  "(query \<lparr>query = Some [], top_k = Some 5\<rparr> = None \<or>
    query \<lparr>query = Some [], top_k = Some 5\<rparr> = Some []) \<and>
   search \<lparr>encode_text = (\<lambda>s. Inr [1, 0]), client_search = (\<lambda>v k. Inr [])\<rparr>
          \<lparr>query = Some [], top_k = Some 5\<rparr>
     = (SearchRejected 400 ''Query is required'', [])"
proof -
  have h: "query \<lparr>query = Some [], top_k = Some 5\<rparr> = None \<or>
           query \<lparr>query = Some [], top_k = Some 5\<rparr> = Some []" by simp
  from search_empty_query_rejected [OF h]
  show ?thesis
    using h by simp
qed

subsection \<open>The estimator\<close>

text \<open>
  The branches of the estimator, for every float arithmetic: the sentinel when nothing
  is processed; otherwise, when both divisions succeed, the seconds, the minutes or
  the hours and minutes, chosen by comparing the remaining time with 60 and 3600.
\<close>

lemma estimate_nothing_processed:
  "estimate_time_remaining ops 0 tot st now = Inr ''Calculating...''"
  by (simp add: estimate_time_remaining_def)

lemma estimate_branches:
  assumes "processed \<noteq> 0"
    and "int_truediv ops processed (f_sub ops now started) = Inr rate"
    and "int_truediv ops (tot - processed) rate = Inr remaining"
  shows "estimate_time_remaining ops processed tot (Some started) now =
           (if f_less_int ops remaining 60 then fmt_seconds ops remaining
            else if f_less_int ops remaining 3600 then fmt_minutes ops remaining
            else fmt_hours ops remaining)"
  using assms by (simp add: estimate_time_remaining_def Let_def)

text \<open>
  With no time elapsed the first division has a zero divisor and raises, whatever the
  float arithmetic.
\<close>

lemma estimate_zero_elapsed:
  assumes "processed \<noteq> 0" and "f_of_int ops processed = Inr a"
    and "f_is_zero ops (f_sub ops now started)"
  shows "estimate_time_remaining ops processed tot (Some started) now = Inl ZeroDivisionError"
  using assms by (simp add: estimate_time_remaining_def int_truediv_def Let_def)

text \<open>Five items after 2.5 seconds, out of 100, of 1000 and of 100000.\<close>

lemma estimate_examples:
  "estimate_time_remaining exact_arith 5 100 (Some 10) 12.5 = Inr ''47s remaining''"
  "estimate_time_remaining exact_arith 5 1000 (Some 10) 12.5 = Inr ''8m remaining''"
  "estimate_time_remaining exact_arith 5 100000 (Some 10) 12.5 = Inr ''13h 53m remaining''"
  by (simp_all add: estimate_time_remaining_def int_truediv_def exact_arith_def Let_def
        fmt_seconds_def fmt_minutes_def fmt_hours_def str_int_def py_int_def py_fmod_def
        str_nat.simps)

text \<open>
  Claim C7 at a call made when the clock still reads the start time: one item of two is
  processed, the elapsed time is zero, and the call raises \<^verbatim>\<open>ZeroDivisionError\<close> at
  \<^verbatim>\<open>rate = progress / elapsed\<close> where the claim has a formatted result. The guard of the
  source covers only \<^verbatim>\<open>progress == 0\<close>.
\<close>

theorem estimate_raises_at_zero_elapsed:
  "estimate_time_remaining exact_arith 1 2 (Some 10) 10 = Inl ZeroDivisionError"
  by (simp add: estimate_time_remaining_def int_truediv_def exact_arith_def)

subsection \<open>The scan and the descriptions\<close>

text \<open>The folder string is normalised when the path is built.\<close>

lemma Path_examples:
  "Path ''./scraped_images'' = [''scraped_images'']"
  "Path ''/srv//imgs/'' = [''/'', ''srv'', ''imgs'']"
  "Path ''//a'' = [''//'', ''a'']"
  "str_path (Path ''/srv//imgs/'') = ''/srv/imgs''"
  "str_path (Path ''.'') = ''.''"
  by (simp_all add: Path_def str_path_def is_anchor_def Let_def)

lemma glob_subset_rglob: "set (glob d es ext) \<subseteq> set (rglob d es ext)"
  by (induction d es ext rule: rglob.induct) (auto simp: glob_def)

lemma found_files_set:
  "set (found_files d es) =
     set (rglob d es ''.jpg'') \<union> set (rglob d es ''.jpeg'') \<union> set (rglob d es ''.png'')"
  using glob_subset_rglob [of d es]
  by (auto simp: found_files_def)

lemma image_files_distinct: "distinct (image_files rank d es)"
  by (simp add: image_files_def py_list_of_set_def)

lemma image_files_set: "set (image_files rank d es) = set (found_files d es)"
  by (simp add: image_files_def py_list_of_set_def)

lemma distinct_count_list_one: "distinct xs \<Longrightarrow> x \<in> set xs \<Longrightarrow> count_list xs x = 1"
  by (induction xs) auto

lemma count_list_pos: "x \<in> set xs \<Longrightarrow> 1 \<le> count_list xs x"
  by (induction xs) auto

lemma endswith_named:
  assumes "endswith n ext" and "CHR ''.'' \<in> set ext"
  shows "n \<noteq> [] \<and> \<not> is_anchor n"
proof -
  from assms(1) have "set ext \<subseteq> set n"
    using set_drop_subset [of "length n - length ext" n] by (auto simp: endswith_def)
  with assms(2) have "CHR ''.'' \<in> set n" by blast
  then show ?thesis by (auto simp: is_anchor_def)
qed

lemma path_name_snoc: "n \<noteq> [] \<Longrightarrow> \<not> is_anchor n \<Longrightarrow> path_name (d @ [n]) = n"
  by (cases d) (simp_all add: path_name_def)

lemma rglob_name_nonempty:
  "p \<in> set (rglob d es ext) \<Longrightarrow> CHR ''.'' \<in> set ext \<Longrightarrow> path_name p \<noteq> []"
  by (induction d es ext rule: rglob.induct)
     (auto simp: path_name_snoc dest: endswith_named split: if_splits)

lemma scan_name_nonempty: "p \<in> set (scan e image_folder) \<Longrightarrow> path_name p \<noteq> []"
  by (auto simp: scan_def image_files_set found_files_set dest: rglob_name_nonempty)

lemma with_suffix_txt: "path_name p \<noteq> [] \<Longrightarrow> with_suffix p ''.txt'' = Inr (sidecar p)"
  by (auto simp: with_suffix_def sidecar_def path_name_def path_parent_def split: if_splits)

text \<open>
  Claim C5 as stated fails: the duplicates are removed by equality of the paths, not by
  resolved absolute path. In the folder \<^verbatim>\<open>/srv/imgs\<close> the file \<^verbatim>\<open>a.jpg\<close> is matched by the
  direct and by the recursive search, and so is the link \<^verbatim>\<open>copy.jpg\<close> to it; both paths
  stay in the sequence, so the file with the resolved path \<^verbatim>\<open>/srv/imgs/a.jpg\<close> is
  catalogued twice.
\<close>

theorem linked_file_catalogued_twice_counterexample:
  "[''/'', ''srv'', ''imgs'', ''a.jpg''] \<in> set (glob (Path ''/srv/imgs'') ex_linked ''.jpg'') \<and>
   [''/'', ''srv'', ''imgs'', ''a.jpg''] \<in> set (rglob (Path ''/srv/imgs'') ex_linked ''.jpg'') \<and>
   count_list (resolved_files length (Path ''/srv/imgs'') ex_linked)
     [''/'', ''srv'', ''imgs'', ''a.jpg''] = 2"
  by (simp add: resolved_files_def resolved_def image_files_def py_list_of_set_def
      found_files_def glob_def ex_linked_def Path_def endswith_def Let_def)

text \<open>
  Claim C5, amended. The duplicates are removed by equality of the paths as the
  searches produce them: a path matched both by the direct search and by the recursive
  search for one of the three extensions occurs at least twice among the paths found
  and exactly once in the sequence of image files that the job iterates over, whatever
  the iteration order of the set. No path occurs twice in that sequence, and every
  path found is in it: two different paths stay two items, also when they resolve to
  the same file.
\<close>

theorem scan_deduplicates:
  assumes "ext \<in> {''.jpg'', ''.jpeg'', ''.png''}"
    and "p \<in> set (glob d es ext)" and "p \<in> set (rglob d es ext)"
  shows "2 \<le> count_list (found_files d es) p \<and> count_list (image_files rank d es) p = 1 \<and>
         distinct (image_files rank d es) \<and>
         set (image_files rank d es) = set (found_files d es)"
proof -
  have g: "1 \<le> count_list (glob d es ext) p" and r: "1 \<le> count_list (rglob d es ext) p"
    using assms(2,3) count_list_pos by fastforce+
  have two: "2 \<le> count_list (found_files d es) p"
    using assms(1) g r by (auto simp: found_files_def)
  then have "p \<in> set (found_files d es)"
    by (metis count_list_0_iff not_numeral_le_zero)
  then have "count_list (image_files rank d es) p = 1"
    by (simp add: distinct_count_list_one image_files_distinct image_files_set)
  with two show ?thesis
    by (simp add: image_files_distinct image_files_set)
qed

text \<open>The file \<^verbatim>\<open>imgs/a.jpg\<close> is found by both searches.\<close>

theorem scan_deduplicates_witness:
  "''.jpg'' \<in> {''.jpg'', ''.jpeg'', ''.png''} \<and>
   [''imgs'', ''a.jpg''] \<in> set (glob (Path ''imgs'') ex_tree ''.jpg'') \<and>
   [''imgs'', ''a.jpg''] \<in> set (rglob (Path ''imgs'') ex_tree ''.jpg'') \<and>
   2 \<le> count_list (found_files (Path ''imgs'') ex_tree) [''imgs'', ''a.jpg''] \<and>
   count_list (image_files length (Path ''imgs'') ex_tree) [''imgs'', ''a.jpg''] = 1"
proof -
  have a: "''.jpg'' \<in> {''.jpg'', ''.jpeg'', ''.png''}" by simp
  have b: "[''imgs'', ''a.jpg''] \<in> set (glob (Path ''imgs'') ex_tree ''.jpg'')"
    by (simp add: glob_def ex_tree_def Path_def endswith_def)
  have c: "[''imgs'', ''a.jpg''] \<in> set (rglob (Path ''imgs'') ex_tree ''.jpg'')"
    by (simp add: ex_tree_def Path_def endswith_def)
  from scan_deduplicates [OF a b c, of length]
  show ?thesis using a b c by simp
qed

text \<open>
  Claim C6. For every image file of the scan, the description is read from the file
  with the same folder and stem and the extension \<^verbatim>\<open>.txt\<close>; it is ``No description''
  when reading that file raises or when its content is empty after stripping, and the
  stripped content otherwise. Computing it raises nothing: the first statements of the
  \<^verbatim>\<open>try\<close> block end without an exception, and the point they build, if the embedding
  succeeds, carries that description.
\<close>

theorem description_from_sidecar:
  assumes "image_file \<in> set (scan e image_folder)"
  shows "with_suffix image_file ''.txt'' = Inr (sidecar image_file) \<and>
         read_description (read_text e) (sidecar image_file) =
           (case read_text e (sidecar image_file) of
              Inl ex \<Rightarrow> ''No description''
            | Inr text \<Rightarrow> if strip text = [] then ''No description'' else strip text) \<and>
         (case item_point e (idx, image_file) of
            Inl ex \<Rightarrow> False
          | Inr None \<Rightarrow> embed_image e (str_path image_file) = None
          | Inr (Some pt) \<Rightarrow>
              map_of (payload pt) ''description'' =
                Some (read_description (read_text e) (sidecar image_file)))"
proof -
  have w: "with_suffix image_file ''.txt'' = Inr (sidecar image_file)"
    using assms by (simp add: scan_name_nonempty with_suffix_txt)
  have r: "read_description (read_text e) (sidecar image_file) =
           (case read_text e (sidecar image_file) of
              Inl ex \<Rightarrow> ''No description''
            | Inr text \<Rightarrow> if strip text = [] then ''No description'' else strip text)"
    by (simp add: read_description_def Let_def split: sum.splits)
  have i: "(case item_point e (idx, image_file) of
            Inl ex \<Rightarrow> False
          | Inr None \<Rightarrow> embed_image e (str_path image_file) = None
          | Inr (Some pt) \<Rightarrow>
              map_of (payload pt) ''description'' =
                Some (read_description (read_text e) (sidecar image_file)))"
    by (simp add: item_point_def w PointStruct_def Let_def split: option.splits)
  from w r i show ?thesis by blast
qed

lemma ex_scan: "scan ex_env ''imgs'' =
  [[''imgs'', ''a.jpg''], [''imgs'', ''sub'', ''b.png''],
   [''imgs'', ''sub'', ''deep'', ''c.jpeg''], [''imgs'', ''sub'', ''deep'', ''er'', ''d.png'']]"
  by (simp add: scan_def image_files_def py_list_of_set_def found_files_def glob_def
      ex_env_def ex_tree_def Path_def endswith_def)

text \<open>The image \<^verbatim>\<open>a.jpg\<close> has a sidecar, the image \<^verbatim>\<open>c.jpeg\<close> has none.\<close>

theorem description_from_sidecar_witness:
  "[''imgs'', ''a.jpg''] \<in> set (scan ex_env ''imgs'') \<and>
   [''imgs'', ''sub'', ''deep'', ''c.jpeg''] \<in> set (scan ex_env ''imgs'') \<and>
   with_suffix [''imgs'', ''a.jpg''] ''.txt'' = Inr [''imgs'', ''a.txt''] \<and>
   read_description (read_text ex_env) [''imgs'', ''a.txt''] = ''old harbour'' \<and>
   read_description (read_text ex_env) [''imgs'', ''sub'', ''deep'', ''c.txt''] = ''No description''"
proof -
  have a: "[''imgs'', ''a.jpg''] \<in> set (scan ex_env ''imgs'')"
    and c: "[''imgs'', ''sub'', ''deep'', ''c.jpeg''] \<in> set (scan ex_env ''imgs'')"
    by (simp_all add: ex_scan)
  have sa: "sidecar [''imgs'', ''a.jpg''] = [''imgs'', ''a.txt'']"
    and sc: "sidecar [''imgs'', ''sub'', ''deep'', ''c.jpeg''] = [''imgs'', ''sub'', ''deep'', ''c.txt'']"
    by (simp_all add: sidecar_def path_parent_def path_name_def path_stem_def path_suffix_def)
  from description_from_sidecar [OF a, of 0] description_from_sidecar [OF c, of 2]
  show ?thesis
    using a c by (simp add: sa sc ex_env_def strip_def py_isspace_def)
qed

subsection \<open>The indexing job\<close>

lemma loop_body_content:
  "concat (client (loop_body e n item j)) @ points (loop_body e n item j)
     = concat (client j) @ points j @ appended e item"
  by (auto simp: loop_body_def try_item_def batch_upload_def update_progress_def upsert_def
        appended_def Let_def split: sum.splits option.splits prod.splits if_splits)

lemma fold_loop_body_content:
  "concat (client (fold (loop_body e n) items j)) @ points (fold (loop_body e n) items j)
     = concat (client j) @ points j @ concat (map (appended e) items)"
  by (induction items arbitrary: j) (simp_all add: loop_body_content)

lemma index_loop_content:
  "concat (client (index_loop e files j)) @ points (index_loop e files j)
     = concat (client j) @ points j @ records e files"
  by (simp add: index_loop_def records_def fold_loop_body_content)

lemma completed_content:
  assumes "index_images_background e st q image_folder = Inr j"
  shows "concat (client j) = concat q @ records e (scan e image_folder)"
proof -
  let ?files = "scan e image_folder"
  let ?j = "index_loop e ?files (job_start e st q (length ?files))"
  have inv: "concat (client ?j) @ points ?j = concat q @ records e ?files"
    using index_loop_content [of e ?files "job_start e st q (length ?files)"]
    by (simp add: job_start_def)
  from assms show ?thesis
    using inv
    by (auto simp: index_images_background_def Let_def upsert_def split: if_splits sum.splits)
qed

lemma item_point_id: "item_point e item = Inr (Some pt) \<Longrightarrow> point_id pt = fst item"
  by (auto simp: item_point_def PointStruct_def Let_def split: sum.splits option.splits)

lemma appended_ids:
  "map point_id (appended e item) = (if appended e item = [] then [] else [fst item])"
  by (auto simp: appended_def item_point_id split: sum.splits option.splits)

lemma indexed_appended_ids:
  "map point_id (concat (map (\<lambda>i. appended e (i, f i)) ns))
     = filter (\<lambda>i. appended e (i, f i) \<noteq> []) ns"
  by (induction ns) (simp_all add: appended_ids)

lemma enumerate_as_map: "enumerate 0 xs = map (\<lambda>i. (i, xs ! i)) [0..<length xs]"
  by (rule nth_equalityI) (simp_all add: nth_enumerate_eq)

lemma records_indexed:
  "records e files = concat (map (\<lambda>i. appended e (i, files ! i)) [0..<length files])"
  by (simp add: records_def enumerate_as_map comp_def)

lemma records_ids:
  "map point_id (records e files)
     = filter (\<lambda>i. appended e (i, files ! i) \<noteq> []) [0..<length files]"
  unfolding records_indexed by (rule indexed_appended_ids)

lemma records_ids_distinct: "distinct (map point_id (records e files))"
  by (simp add: records_ids)

lemma records_member:
  assumes "pt \<in> set (records e files)"
  shows "point_id pt < length files \<and> appended e (point_id pt, files ! point_id pt) = [pt]"
proof -
  from assms obtain item where item: "item \<in> set (enumerate 0 files)" "pt \<in> set (appended e item)"
    by (auto simp: records_def)
  from item(2) have a: "appended e item = [pt]" and i: "point_id pt = fst item"
    by (auto simp: appended_def item_point_id split: sum.splits option.splits)
  from item(1) have "fst item < length files" "snd item = files ! fst item"
    by (auto simp: in_set_enumerate_eq)
  with a i show ?thesis by (cases item) auto
qed

lemma map_of_rev_distinct:
  "distinct (map fst xs) \<Longrightarrow> map_of (rev xs) = map_of xs"
  by (rule map_of_inject_set [THEN iffD2]) (simp_all add: rev_map [symmetric])

lemma stored_append:
  assumes "distinct (map point_id new)" and "pt \<in> set new"
  shows "map_of (rev (map (\<lambda>p. (point_id p, p)) (old @ new))) (point_id pt) = Some pt"
proof -
  let ?kv = "map (\<lambda>p. (point_id p, p))"
  have d: "distinct (map fst (?kv new))"
    using assms(1) by (simp add: comp_def)
  have "map_of (?kv new) (point_id pt) = Some pt"
    using d assms(2) by (intro map_of_is_SomeI) auto
  then have "map_of (rev (?kv new)) (point_id pt) = Some pt"
    using d by (simp add: map_of_rev_distinct)
  then show ?thesis
    by (simp add: rev_map)
qed

text \<open>
  Claim C10. In every run that completes, the records added to the collection are the
  records of the run in scan order, their identifiers are exactly the positions in the
  scan sequence of the items whose \<^verbatim>\<open>try\<close> block reaches \<^verbatim>\<open>points.append\<close> (so an
  item that fails leaves a gap), the identifiers are distinct, and each record is the
  one appended for the item at the position its identifier names. After the run the
  collection holds, under each of these identifiers, the record of this run, whatever
  it held before: a later run writes the identifiers 0, 1, 2, ... again and overwrites
  the earlier records by position.
\<close>

theorem ids_are_scan_positions:
  assumes "index_images_background e st q image_folder = Inr j"
  shows "concat (client j) = concat q @ records e (scan e image_folder) \<and>
         map point_id (records e (scan e image_folder)) =
           filter (\<lambda>i. appended e (i, scan e image_folder ! i) \<noteq> [])
                  [0..<length (scan e image_folder)] \<and>
         distinct (map point_id (records e (scan e image_folder))) \<and>
         (\<forall>pt \<in> set (records e (scan e image_folder)).
            point_id pt < length (scan e image_folder) \<and>
            appended e (point_id pt, scan e image_folder ! point_id pt) = [pt] \<and>
            stored (client j) (point_id pt) = Some pt)"
proof -
  let ?files = "scan e image_folder"
  have c: "concat (client j) = concat q @ records e ?files"
    by (rule completed_content [OF assms])
  have s: "stored (client j) (point_id pt) = Some pt" if "pt \<in> set (records e ?files)" for pt
    unfolding stored_def c
    by (rule stored_append [OF records_ids_distinct that])
  from c s show ?thesis
    by (simp add: records_ids records_member)
qed

text \<open>The run over the concrete folder, one iteration at a time.\<close>

lemma ex_items: "enumerate 0 (scan ex_env ''imgs'') =
  [(0, [''imgs'', ''a.jpg'']), (1, [''imgs'', ''sub'', ''b.png'']),
   (2, [''imgs'', ''sub'', ''deep'', ''c.jpeg'']), (3, [''imgs'', ''sub'', ''deep'', ''er'', ''d.png''])]"
  by (simp add: ex_scan enumerate_simps)

lemma ex_length: "length (scan ex_env ''imgs'') = 4"
  by (simp add: ex_scan)

lemma ex_item_a: "item_point ex_env (0, [''imgs'', ''a.jpg'']) = Inr (Some ex_point_a)"
  by (simp add: item_point_def with_suffix_def path_name_def path_parent_def path_stem_def
        path_suffix_def read_description_def strip_def py_isspace_def embed_image_def
        PointStruct_def str_path_def is_anchor_def ex_env_def ex_point_a_def Let_def)

lemma ex_item_b: "item_point ex_env (i, [''imgs'', ''sub'', ''b.png'']) = Inr None"
  by (simp add: item_point_def with_suffix_def path_name_def path_parent_def path_stem_def
        path_suffix_def read_description_def embed_image_def str_path_def is_anchor_def
        ex_env_def Let_def)

lemma ex_item_c:
  "item_point ex_env (2, [''imgs'', ''sub'', ''deep'', ''c.jpeg'']) = Inr (Some ex_point_c)"
  by (simp add: item_point_def with_suffix_def path_name_def path_parent_def path_stem_def
        path_suffix_def read_description_def strip_def py_isspace_def embed_image_def
        PointStruct_def str_path_def is_anchor_def ex_env_def ex_point_c_def Let_def)

lemma ex_item_d:
  "item_point ex_env (i, [''imgs'', ''sub'', ''deep'', ''er'', ''d.png'']) = Inr None"
  by (simp add: item_point_def with_suffix_def path_name_def path_parent_def path_stem_def
        path_suffix_def read_description_def embed_image_def str_path_def is_anchor_def
        ex_env_def Let_def)

lemma ex_records: "records ex_env (scan ex_env ''imgs'') = [ex_point_a, ex_point_c]"
  unfolding records_def ex_items
  by (simp add: appended_def ex_item_a ex_item_b ex_item_c ex_item_d)

lemma ex_clock: "clock_start ex_env = 10" "clock_item ex_env i = 11 + real i"
  by (simp_all add: ex_env_def)

lemma ex_store: "upsert_raises ex_env b = False"
  by (simp add: ex_env_def)

lemma ex_arith: "arith ex_env = exact_arith"
  by (simp add: ex_env_def)

lemma ex_eta_first:
  "estimate_time_remaining exact_arith 1 4 (Some 10) 11 = Inr ''3s remaining''"
  by (simp add: estimate_time_remaining_def int_truediv_def exact_arith_def fmt_seconds_def
      str_int_def py_int_def str_nat.simps)

lemma ex_eta_third:
  "estimate_time_remaining exact_arith 3 4 (Some 10) 13 = Inr ''1s remaining''"
  by (simp add: estimate_time_remaining_def int_truediv_def exact_arith_def fmt_seconds_def
      str_int_def py_int_def str_nat.simps)

lemma ex_step_a:
  "loop_body ex_env 4 (0, [''imgs'', ''a.jpg''])
     \<lparr>status = \<lparr>is_indexing = True, progress = 0, total = 4, message = m,
                 start_time = Some 10, estimated_time = None\<rparr>,
      points = [], errors = 0, client = q\<rparr> =
     \<lparr>status = \<lparr>is_indexing = True, progress = 1, total = 4, message = processed_message 1 4,
                 start_time = Some 10, estimated_time = Some ''3s remaining''\<rparr>,
      points = [ex_point_a], errors = 0, client = q\<rparr>"
  by (simp add: loop_body_def try_item_def ex_item_a batch_upload_def batch_size_def
      update_progress_def ex_clock ex_arith ex_eta_first Let_def)

lemma ex_step_b:
  "loop_body ex_env 4 (1, [''imgs'', ''sub'', ''b.png''])
     \<lparr>status = s, points = ps, errors = 0, client = q\<rparr> =
     \<lparr>status = s, points = ps, errors = 1, client = q\<rparr>"
  by (simp add: loop_body_def try_item_def ex_item_b)

lemma ex_step_c:
  "loop_body ex_env 4 (2, [''imgs'', ''sub'', ''deep'', ''c.jpeg''])
     \<lparr>status = \<lparr>is_indexing = True, progress = 1, total = 4, message = m,
                 start_time = Some 10, estimated_time = Some ''3s remaining''\<rparr>,
      points = [ex_point_a], errors = 1, client = q\<rparr> =
     \<lparr>status = \<lparr>is_indexing = True, progress = 3, total = 4, message = processed_message 3 4,
                 start_time = Some 10, estimated_time = Some ''1s remaining''\<rparr>,
      points = [ex_point_a, ex_point_c], errors = 1, client = q\<rparr>"
  by (simp add: loop_body_def try_item_def ex_item_c batch_upload_def batch_size_def
      update_progress_def ex_clock ex_arith ex_eta_third Let_def)

lemma ex_step_d:
  "loop_body ex_env 4 (3, [''imgs'', ''sub'', ''deep'', ''er'', ''d.png''])
     \<lparr>status = s, points = ps, errors = 1, client = q\<rparr> =
     \<lparr>status = s, points = ps, errors = 2, client = q\<rparr>"
  by (simp add: loop_body_def try_item_def ex_item_d)

lemma ex_job_start:
  "job_start ex_env ex_started q 4 =
     \<lparr>status = \<lparr>is_indexing = True, progress = 0, total = 4,
                 message = ''Found '' @ str_nat 4 @ '' images'',
                 start_time = Some 10, estimated_time = None\<rparr>,
      points = [], errors = 0, client = q\<rparr>"
  by (simp add: job_start_def ex_started_def ex_clock)

lemma ex_run:
  "index_images_background ex_env ex_started q ''imgs'' =
     Inr \<lparr>status = \<lparr>is_indexing = False, progress = 3, total = 4,
                   message = completed_message 2 2,
                   start_time = Some 10, estimated_time = Some ''1s remaining''\<rparr>,
          points = [ex_point_a, ex_point_c],
          errors = 2,
          client = q @ [[ex_point_a, ex_point_c]]\<rparr>"
  unfolding index_images_background_def index_loop_def Let_def ex_items ex_length fold_simps
    ex_job_start ex_step_a ex_step_b ex_step_c ex_step_d
  by (simp add: upsert_def ex_store)

text \<open>
  The counters of a run. Each iteration counts the item as an error or appends its
  record, where no statement after the append raises: the store accepts every batch
  and every call of the estimator returns.
\<close>

lemma appended_length: "length (appended e item) \<le> 1"
  by (simp add: appended_def split: sum.splits option.splits)

lemma loop_body_errors:
  assumes "\<forall>b. \<not> upsert_raises e b"
    and "start_time (status j) = Some started"
    and "\<forall>i. \<exists>eta. estimate_time_remaining (arith e) (int (i + 1)) (int n) (Some started)
                   (clock_item e i) = Inr eta"
  shows "errors (loop_body e n item j) + length (appended e item) = errors j + 1 \<and>
         start_time (status (loop_body e n item j)) = Some started"
proof -
  obtain eta where eta:
    "estimate_time_remaining (arith e) (int (fst item + 1)) (int n) (Some started)
       (clock_item e (fst item)) = Inr eta"
    using assms(3) by blast
  show ?thesis
    using assms(1,2) eta
    by (auto simp: loop_body_def try_item_def batch_upload_def update_progress_def upsert_def
          appended_def Let_def split: sum.splits option.splits prod.splits if_splits)
qed

lemma fold_loop_body_errors:
  assumes "\<forall>b. \<not> upsert_raises e b"
    and "start_time (status j) = Some started"
    and "\<forall>i. \<exists>eta. estimate_time_remaining (arith e) (int (i + 1)) (int n) (Some started)
                   (clock_item e i) = Inr eta"
  shows "errors (fold (loop_body e n) items j) + length (concat (map (appended e) items))
           = errors j + length items"
  using assms(2)
proof (induction items arbitrary: j)
  case Nil
  then show ?case by simp
next
  case (Cons item items)
  from loop_body_errors [OF assms(1) Cons.prems assms(3), where item = item]
  have step: "errors (loop_body e n item j) + length (appended e item) = errors j + 1"
    and st: "start_time (status (loop_body e n item j)) = Some started"
    by blast+
  from Cons.IH [OF st] step show ?case by simp
qed

text \<open>The progress counter never exceeds the total.\<close>

lemma loop_body_progress:
  assumes "fst item < n" and "progress (status j) \<le> n" and "total (status j) = n"
  shows "progress (status (loop_body e n item j)) \<le> n \<and>
         total (status (loop_body e n item j)) = n"
  using assms
  by (auto simp: loop_body_def try_item_def batch_upload_def update_progress_def upsert_def
        Let_def split: sum.splits option.splits prod.splits if_splits)

lemma fold_loop_body_progress:
  assumes "\<forall>item \<in> set items. fst item < n"
    and "progress (status j) \<le> n" and "total (status j) = n"
  shows "progress (status (fold (loop_body e n) items j)) \<le> n \<and>
         total (status (fold (loop_body e n) items j)) = n"
  using assms
proof (induction items arbitrary: j)
  case Nil
  then show ?case by simp
next
  case (Cons item items)
  from Cons.prems have "fst item < n" by simp
  from loop_body_progress [OF this Cons.prems(2,3), of e]
  have "progress (status (loop_body e n item j)) \<le> n"
    and "total (status (loop_body e n item j)) = n" by blast+
  with Cons.IH [of "loop_body e n item j"] Cons.prems(1) show ?case by simp
qed

lemma completed_run_counts:
  assumes "index_images_background e st q image_folder = Inr j"
  shows "total (status j) = length (scan e image_folder) \<and>
         progress (status j) \<le> total (status j) \<and>
         \<not> is_indexing (status j)"
proof -
  let ?files = "scan e image_folder"
  let ?j0 = "job_start e st q (length ?files)"
  have items: "\<forall>item \<in> set (enumerate 0 ?files). fst item < length ?files"
    by (auto simp: in_set_enumerate_eq)
  have "progress (status ?j0) \<le> length ?files" "total (status ?j0) = length ?files"
    by (simp_all add: job_start_def)
  from fold_loop_body_progress [OF items this, of e]
  have "progress (status (index_loop e ?files ?j0)) \<le> length ?files"
    and "total (status (index_loop e ?files ?j0)) = length ?files"
    by (simp_all add: index_loop_def)
  with assms show ?thesis
    by (auto simp: index_images_background_def Let_def split: sum.splits if_splits)
qed

text \<open>Errors and stored records add up to the number of items found.\<close>

lemma completed_run_accounting:
  assumes "index_images_background e st q image_folder = Inr j"
    and "\<forall>b. \<not> upsert_raises e b"
    and "\<forall>i. \<exists>eta. estimate_time_remaining (arith e) (int (i + 1))
                   (int (length (scan e image_folder))) (Some (clock_start e))
                   (clock_item e i) = Inr eta"
  shows "errors j + length (records e (scan e image_folder)) = length (scan e image_folder)"
proof -
  let ?files = "scan e image_folder"
  let ?j0 = "job_start e st q (length ?files)"
  have "start_time (status ?j0) = Some (clock_start e)" "errors ?j0 = 0"
    by (simp_all add: job_start_def)
  with fold_loop_body_errors [OF assms(2) _ assms(3), where j = ?j0 and items = "enumerate 0 ?files"]
  have "errors (index_loop e ?files ?j0) + length (records e ?files) = length ?files"
    by (simp add: index_loop_def records_def)
  with assms(1) show ?thesis
    by (auto simp: index_images_background_def Let_def split: sum.splits if_splits)
qed

text \<open>
  An estimate that raises is caught by the handler of the loop after the record has
  been appended and the progress advanced: the item is stored and counted as an error.
\<close>

lemma loop_body_estimate_raises:
  assumes "item_point e item = Inr (Some pt)"
    and "length (points j) + 1 < batch_size"
    and "estimate_time_remaining (arith e) (int (fst item + 1)) (int n) (start_time (status j))
           (clock_item e (fst item)) = Inl ex"
  shows "loop_body e n item j =
           j\<lparr>points := points j @ [pt],
             status := (status j)\<lparr>progress := fst item + 1\<rparr>,
             errors := errors j + 1\<rparr>"
  using assms
  by (simp add: loop_body_def try_item_def batch_upload_def update_progress_def Let_def)

text \<open>
  A failed embedding counts one error and changes nothing else: no record is appended,
  and the status, with its progress counter, stays as it was.
\<close>

lemma loop_body_failed_embedding:
  "item_point e item = Inr None \<Longrightarrow> loop_body e n item j = j\<lparr>errors := errors j + 1\<rparr>"
  by (simp add: loop_body_def try_item_def)

text \<open>
  Claim C1 at a folder whose last image cannot be embedded. The run over \<^verbatim>\<open>imgs\<close>
  completes with four items found, two records stored and two errors counted, but the
  progress counter ends at 3: the \<^verbatim>\<open>continue\<close> taken after a failed embedding skips the
  assignment of the progress, so the final value is the position after the last item
  that was embedded, not the total.
\<close>

theorem progress_stale_after_failed_item:
  "(case index_images_background ex_env ex_started [] ''imgs'' of
      Inl x \<Rightarrow> False
    | Inr j \<Rightarrow> \<not> is_indexing (status j) \<and> total (status j) = 4 \<and>
               progress (status j) = 3 \<and> errors j = 2 \<and>
               concat (client j) = [ex_point_a, ex_point_c])"
  by (simp add: ex_run)

text \<open>
  The run over \<^verbatim>\<open>imgs\<close> on a collection that holds an older record under the
  identifier 0: the identifiers written are 0 and 2, the older record is replaced, and
  nothing is stored under 1.
\<close>

theorem ids_are_scan_positions_witness:
  "index_images_background ex_env ex_started [[ex_old_point]] ''imgs'' =
     Inr \<lparr>status = \<lparr>is_indexing = False, progress = 3, total = 4,
                   message = completed_message 2 2,
                   start_time = Some 10, estimated_time = Some ''1s remaining''\<rparr>,
          points = [ex_point_a, ex_point_c], errors = 2,
          client = [[ex_old_point], [ex_point_a, ex_point_c]]\<rparr> \<and>
   map point_id (records ex_env (scan ex_env ''imgs'')) = [0, 2] \<and>
   stored [[ex_old_point]] 0 = Some ex_old_point \<and>
   stored [[ex_old_point], [ex_point_a, ex_point_c]] 0 = Some ex_point_a \<and>
   stored [[ex_old_point], [ex_point_a, ex_point_c]] 1 = None \<and>
   stored [[ex_old_point], [ex_point_a, ex_point_c]] 2 = Some ex_point_c"
proof -
  let ?j = "\<lparr>status = \<lparr>is_indexing = False, progress = 3, total = 4,
                   message = completed_message 2 2,
                   start_time = Some 10, estimated_time = Some ''1s remaining''\<rparr>,
          points = [ex_point_a, ex_point_c], errors = 2,
          client = [[ex_old_point], [ex_point_a, ex_point_c]]\<rparr>"
  have run: "index_images_background ex_env ex_started [[ex_old_point]] ''imgs'' = Inr ?j"
    using ex_run [of "[[ex_old_point]]"] by simp
  have ids: "point_id ex_point_a = 0" "point_id ex_point_c = 2" "point_id ex_old_point = 0"
    by (simp_all add: ex_point_a_def ex_point_c_def ex_old_point_def)
  have old: "stored [[ex_old_point]] 0 = Some ex_old_point"
    and gap: "stored [[ex_old_point], [ex_point_a, ex_point_c]] 1 = None"
    by (simp_all add: stored_def ids)
  from ids_are_scan_positions [OF run]
  show ?thesis
    using run old gap by (simp add: ex_records ids)
qed

subsection \<open>Batching\<close>






end
